theory Spec2Isabelle
  imports Complex_Main "HOL-Library.Sublist" "HOL-Library.Multiset"
begin

section \<open>Data model\<close>

text \<open>
  The component under study is the React function component \<open>AnimalList\<close> with the region
  filter, which loads the whole dataset once and filters and pages it in the browser. (The
  repository also holds the earlier variant of the component, which asks the server for one
  page at a time and has no filter; it is not modelled.) A JavaScript string is modelled by the byte sequence of its
  UTF-8 encoding: the component only ever compares strings for equality (\<open>===\<close> and
  \<open>Set.has\<close>), and the encoding is injective. A JavaScript \<open>number\<close> that holds an integer
  is an \<open>int\<close>: every number the component computes with is a list length, a page number or a
  list index, far below \<open>2^53\<close>, where double arithmetic is exact.
\<close>

text \<open>\<open>interface Animal\<close>; the field \<open>id\<close> is named \<open>animal_id\<close> here.\<close>

record animal =
  animal_id :: int
  nombre :: string
  tipo :: string
  edad :: string
  estado :: string
  genero :: string
  desc_fisica :: string
  desc_personalidad :: string
  desc_adicional :: string
  esterilizado :: int
  vacunas :: int
  imagen :: string
  equipo :: string
  region :: string
  comuna :: string
  url :: string

text \<open>\<open>interface ApiResponse\<close>.\<close>

record meta =
  current_page :: int
  last_page :: int
  total :: int

record api_response =
  data :: "animal list"
  meta :: meta

text \<open>\<open>const allRegions\<close>: the sixteen literals, non-ASCII letters as their UTF-8 bytes.\<close>

definition allRegions :: "string list" where
  "allRegions =
    [''Arica y Parinacota'', ''Tarapac'' @ [CHR 0xC3, CHR 0xA1], ''Antofagasta'', ''Atacama'',
     ''Coquimbo'', ''Valpara'' @ [CHR 0xC3, CHR 0xAD] @ ''so'', ''RM'', ''O'Higgins'', ''Maule'',
     [CHR 0xC3, CHR 0x91] @ ''uble'', ''Biob'' @ [CHR 0xC3, CHR 0xAD] @ ''o'',
     ''La Araucan'' @ [CHR 0xC3, CHR 0xAD] @ ''a'', ''Los R'' @ [CHR 0xC3, CHR 0xAD] @ ''os'',
     ''Los Lagos'', ''Ais'' @ [CHR 0xC3, CHR 0xA9] @ ''n'',
     ''Magallanes y Ant'' @ [CHR 0xC3, CHR 0xA1] @ ''rtica Chilena'']"

definition ITEMS_PER_PAGE :: int where
  "ITEMS_PER_PAGE = 20"

text \<open>The five \<open>useState\<close> cells of the component.\<close>

record state =
  allAnimals :: "animal list"
  currentPage :: int
  isLoading :: bool
  error :: "string option"
  selectedRegion :: string

definition initial :: state where
  "initial = \<lparr>allAnimals = [], currentPage = 1, isLoading = True, error = None,
     selectedRegion = ''all''\<rparr>"

section \<open>Derived values of a render\<close>

text \<open>
  \<open>filteredAnimals\<close>, \<open>availableRegions\<close>, \<open>totalPages\<close> and \<open>currentAnimals\<close> are recomputed
  from the state cells they list as dependencies; \<open>useMemo\<close> only caches, so each is a function
  of those dependencies.
\<close>

definition filteredAnimals :: "animal list \<Rightarrow> string \<Rightarrow> animal list" where
  "filteredAnimals animals sel =
     (if sel = ''all'' then animals
      else filter (\<lambda>animal. region animal = sel) animals)"

definition availableRegions :: "animal list \<Rightarrow> string list" where
  "availableRegions animals =
     (let regions = set (map region animals)
      in filter (\<lambda>r. r \<in> regions) allRegions)"

text \<open>
  \<open>Math.ceil(filteredAnimals.length / ITEMS_PER_PAGE)\<close>. The quotient is taken in the reals;
  for a length below \<open>2^53\<close> the double quotient rounds to the same ceiling.
\<close>

definition totalPages :: "animal list \<Rightarrow> int" where
  "totalPages filtered = \<lceil>real (length filtered) / real_of_int ITEMS_PER_PAGE\<rceil>"

text \<open>
  \<open>Array.prototype.slice(start, end)\<close> on integer arguments: a negative index counts from
  the end and is cut at 0, a non-negative index is cut at the length, and nothing is returned
  when the final index does not exceed the first.
\<close>

definition js_slice :: "'a list \<Rightarrow> int \<Rightarrow> int \<Rightarrow> 'a list" where
  "js_slice xs start fin =
     (let len = int (length xs);
          k = (if start < 0 then max (len + start) 0 else min start len);
          final = (if fin < 0 then max (len + fin) 0 else min fin len)
      in take (nat (final - k)) (drop (nat k) xs))"

definition currentAnimals :: "animal list \<Rightarrow> int \<Rightarrow> animal list" where
  "currentAnimals filtered page =
     (let startIndex = (page - 1) * ITEMS_PER_PAGE
      in js_slice filtered startIndex (startIndex + ITEMS_PER_PAGE))"

section \<open>State setters and handlers\<close>

definition setAllAnimals :: "animal list \<Rightarrow> state \<Rightarrow> state" where
  "setAllAnimals v s = s\<lparr>allAnimals := v\<rparr>"

definition setIsLoading :: "bool \<Rightarrow> state \<Rightarrow> state" where
  "setIsLoading v s = s\<lparr>isLoading := v\<rparr>"

definition setError :: "string option \<Rightarrow> state \<Rightarrow> state" where
  "setError v s = s\<lparr>error := v\<rparr>"

definition setSelectedRegion :: "string \<Rightarrow> state \<Rightarrow> state" where
  "setSelectedRegion v s = s\<lparr>selectedRegion := v\<rparr>"

text \<open>\<open>setCurrentPage\<close> in its updater form; a plain value \<open>v\<close> is the updater \<open>\<lambda>_. v\<close>.\<close>

definition setCurrentPage :: "(int \<Rightarrow> int) \<Rightarrow> state \<Rightarrow> state" where
  "setCurrentPage f s = s\<lparr>currentPage := f (currentPage s)\<rparr>"

text \<open>
  \<open>handleRegionChange\<close> queues both updates inside one event handler; React applies the updates
  queued by a handler together, before the next render, so the handler is one transition.
\<close>

definition handleRegionChange :: "string \<Rightarrow> state \<Rightarrow> state" where
  "handleRegionChange v s = setCurrentPage (\<lambda>prev. 1) (setSelectedRegion v s)"

text \<open>The \<open>onClick\<close> handlers of the previous button, a page link and the next button.\<close>

definition onPrevious :: "state \<Rightarrow> state" where
  "onPrevious s = setCurrentPage (\<lambda>prev. max (prev - 1) 1) s"

definition onPageLink :: "nat \<Rightarrow> state \<Rightarrow> state" where
  "onPageLink index s = setCurrentPage (\<lambda>prev. int index + 1) s"

definition onNext :: "state \<Rightarrow> state" where
  "onNext s =
     setCurrentPage
       (\<lambda>prev. min (prev + 1) (totalPages (filteredAnimals (allAnimals s) (selectedRegion s)))) s"

text \<open>
  \<open>fetchAllAnimals\<close> runs in two parts: the statements before the first \<open>await\<close>, and the rest
  once the network has answered. What the network answers is an input: \<open>fetch\<close> rejects, or
  resolves to a response with its \<open>ok\<close> flag, whose \<open>json()\<close> rejects or yields the body.
\<close>

datatype json_outcome = JsonRejected | JsonBody api_response

datatype fetch_outcome = FetchRejected | Response bool json_outcome

definition fetch_error_message :: string where
  "fetch_error_message = ''Error fetching animals. Please try again later.''"

definition fetchAllAnimals_begin :: "state \<Rightarrow> state" where
  "fetchAllAnimals_begin s = setError None (setIsLoading True s)"

definition fetchAllAnimals_settle :: "fetch_outcome \<Rightarrow> state \<Rightarrow> state" where
  "fetchAllAnimals_settle outcome s =
     setIsLoading False
       (case outcome of
          FetchRejected \<Rightarrow> setError (Some fetch_error_message) s
        | Response ok body \<Rightarrow>
            if \<not> ok then setError (Some fetch_error_message) s
            else (case body of
                    JsonRejected \<Rightarrow> setError (Some fetch_error_message) s
                  | JsonBody d \<Rightarrow> setAllAnimals (data d) s))"

section \<open>What a render shows\<close>

record listing =
  selectItems :: "string list"
  selectValue :: string
  cards :: "animal list"
  previousDisabled :: bool
  pageLinks :: "int list"
  nextDisabled :: bool

datatype view = LoadingView | ErrorView string | ListView listing

text \<open>
  The list that the final \<open>return\<close> builds: what the select, the cards and the pagination
  controls are given.
\<close>

definition renderList :: "state \<Rightarrow> listing" where
  "renderList s =
     (let filtered = filteredAnimals (allAnimals s) (selectedRegion s);
          pages = totalPages filtered
      in \<lparr>selectItems = ''all'' # availableRegions (allAnimals s),
          selectValue = selectedRegion s,
          cards = currentAnimals filtered (currentPage s),
          previousDisabled = (currentPage s = 1),
          pageLinks = map (\<lambda>index. int index + 1) [0..<nat pages],
          nextDisabled = (currentPage s = pages)\<rparr>)"

text \<open>
  The two early returns, then the list. \<open>if (error)\<close> tests truthiness: \<open>null\<close> and the empty
  string are falsy.
\<close>

definition render :: "state \<Rightarrow> view" where
  "render s =
     (if isLoading s then LoadingView
      else (case error s of
              None \<Rightarrow> ListView (renderList s)
            | Some msg \<Rightarrow> if msg = [] then ListView (renderList s) else ErrorView msg))"

section \<open>The component as a transition system\<close>

text \<open>
  An event is the settling of the request started at mount, or a user action on a control of
  the rendered list. A control that is not rendered, or is disabled, offers no event.
\<close>

datatype event =
    Settle fetch_outcome
  | SelectRegion string
  | ClickPrevious
  | ClickPageLink nat
  | ClickNext

definition step :: "state \<Rightarrow> event \<Rightarrow> state option" where
  "step s e =
     (case render s of
        LoadingView \<Rightarrow>
          (case e of Settle outcome \<Rightarrow> Some (fetchAllAnimals_settle outcome s) | _ \<Rightarrow> None)
      | ErrorView msg \<Rightarrow> None
      | ListView v \<Rightarrow>
          (case e of
             Settle outcome \<Rightarrow> None
           | SelectRegion r \<Rightarrow>
               if r \<in> set (selectItems v) then Some (handleRegionChange r s) else None
           | ClickPrevious \<Rightarrow> if previousDisabled v then None else Some (onPrevious s)
           | ClickPageLink index \<Rightarrow>
               if index < length (pageLinks v) then Some (onPageLink index s) else None
           | ClickNext \<Rightarrow> if nextDisabled v then None else Some (onNext s)))"

text \<open>The mount effect calls \<open>fetchAllAnimals\<close> once.\<close>

definition mounted :: state where
  "mounted = fetchAllAnimals_begin initial"

fun run :: "state \<Rightarrow> event list \<Rightarrow> state option" where
  "run s [] = Some s"
| "run s (e # es) = (case step s e of None \<Rightarrow> None | Some s' \<Rightarrow> run s' es)"

inductive reachable :: "state \<Rightarrow> bool" where
  reachable_mounted: "reachable mounted"
| reachable_step: "reachable s \<Longrightarrow> step s e = Some s' \<Longrightarrow> reachable s'"

section \<open>Specification-side notions\<close>

text \<open>
  The specification's \<open>clampPage\<close>, as the specification words it; the source has no function
  of that name, only the two handlers above.
\<close>

definition clampPage :: "int \<Rightarrow> int \<Rightarrow> int" where
  "clampPage requestedPage pages = max 1 (min requestedPage pages)"

text \<open>
  The positions of the dataset that a filter selects and that a page shows, computed from the
  column of regions alone. They instrument the derived values with indices, to state which
  positions are selected.
\<close>

definition filteredPositions :: "string list \<Rightarrow> string \<Rightarrow> nat list" where
  "filteredPositions regions sel =
     (if sel = ''all'' then [0..<length regions]
      else filter (\<lambda>i. regions ! i = sel) [0..<length regions])"

definition visiblePositions :: "string list \<Rightarrow> string \<Rightarrow> int \<Rightarrow> nat list" where
  "visiblePositions regions sel page =
     (let startIndex = (page - 1) * ITEMS_PER_PAGE
      in js_slice (filteredPositions regions sel) startIndex (startIndex + ITEMS_PER_PAGE))"

text \<open>The page count of the filtered view of a state, as a render computes it.\<close>

definition pagesOf :: "state \<Rightarrow> int" where
  "pagesOf s = totalPages (filteredAnimals (allAnimals s) (selectedRegion s))"

text \<open>
  The invariant of the transition system: while the request is pending the state is the
  initial one; the selected filter is \<open>all\<close> or the region of some record; and the page is
  within the page count when there is a page, and 0 or 1 when there is none.
\<close>

definition page_invariant :: "state \<Rightarrow> bool" where
  "page_invariant s =
    ((isLoading s \<longrightarrow>
        allAnimals s = [] \<and> currentPage s = 1 \<and> selectedRegion s = ''all'') \<and>
     (selectedRegion s = ''all'' \<or> selectedRegion s \<in> region ` set (allAnimals s)) \<and>
     (if 1 \<le> pagesOf s then 1 \<le> currentPage s \<and> currentPage s \<le> pagesOf s
      else currentPage s = 0 \<or> currentPage s = 1))"

text \<open>Example data for concrete instances.\<close>

definition sample_animal :: "int \<Rightarrow> string \<Rightarrow> animal" where
  "sample_animal i r =
     \<lparr>animal_id = i, nombre = ''Luna'', tipo = ''Perro'', edad = ''2 a'', estado = ''adopcion'',
      genero = ''hembra'', desc_fisica = ''<p>x</p>'', desc_personalidad = [],
      desc_adicional = [], esterilizado = 1, vacunas = 0, imagen = ''https://i'',
      equipo = ''e'', region = r, comuna = ''c'', url = ''https://u''\<rparr>"

definition empty_response :: api_response where
  "empty_response = \<lparr>data = [], meta = \<lparr>current_page = 1, last_page = 1, total = 0\<rparr>\<rparr>"

definition one_record_response :: api_response where
  "one_record_response =
     \<lparr>data = [sample_animal 1 ''RM''], meta = \<lparr>current_page = 1, last_page = 1, total = 1\<rparr>\<rparr>"

definition one_record_state :: state where
  "one_record_state =
     \<lparr>allAnimals = [sample_animal 1 ''RM''], currentPage = 1, isLoading = False, error = None,
      selectedRegion = ''all''\<rparr>"

definition two_region_dataset :: "animal list" where
  "two_region_dataset =
     replicate 45 (sample_animal 1 ''RM'') @ replicate 55 (sample_animal 2 ''Maule'')"

section \<open>Basic facts\<close>

lemma distinct_allRegions: "distinct allRegions"
  unfolding allRegions_def by simp

lemma length_allRegions: "length allRegions = 16"
  unfolding allRegions_def by simp

lemma totalPages_div: "totalPages filtered = (int (length filtered) + 19) div 20"
proof -
  have "totalPages filtered = \<lceil>of_int (int (length filtered)) / (of_int 20 :: real)\<rceil>"
    by (simp add: totalPages_def ITEMS_PER_PAGE_def)
  also have "\<dots> = - (- int (length filtered) div 20)"
    by (rule ceiling_divide_eq_div)
  also have "\<dots> = (int (length filtered) + 19) div 20"
    by linarith
  finally show ?thesis .
qed

section \<open>The filtered view\<close>

text \<open>
  Claim C7. With the sentinel filter value \<open>all\<close> the filtered view is the dataset itself: the
  same records in the same order.
\<close>

theorem filteredAnimals_all: "filteredAnimals D ''all'' = D"
  by (simp add: filteredAnimals_def)

text \<open>
  Claim C2. For a region value \<open>R\<close> other than the sentinel, every record of the filtered view
  has region \<open>R\<close>, the view is a subsequence of the dataset (relative order kept), each record
  occurs in it as often as it occurs in the dataset with region \<open>R\<close> (nothing duplicated,
  nothing dropped), and its length is the number of positions of the dataset with region \<open>R\<close>.
\<close>

theorem filteredAnimals_region:
  assumes "R \<noteq> ''all''"
  shows "(\<forall>a \<in> set (filteredAnimals D R). region a = R) \<and>
         subseq (filteredAnimals D R) D \<and>
         mset (filteredAnimals D R) = filter_mset (\<lambda>a. region a = R) (mset D) \<and>
         length (filteredAnimals D R) = card {i. i < length D \<and> region (D ! i) = R}"
  using assms by (simp add: filteredAnimals_def length_filter_conv_card)

theorem filteredAnimals_region_witness:
  "''RM'' \<noteq> ''all'' \<and>
   filteredAnimals [sample_animal 1 ''RM'', sample_animal 2 ''Maule'', sample_animal 3 ''RM'']
       ''RM'' = [sample_animal 1 ''RM'', sample_animal 3 ''RM''] \<and>
   subseq (filteredAnimals
       [sample_animal 1 ''RM'', sample_animal 2 ''Maule'', sample_animal 3 ''RM''] ''RM'')
     [sample_animal 1 ''RM'', sample_animal 2 ''Maule'', sample_animal 3 ''RM''] \<and>
   length (filteredAnimals
       [sample_animal 1 ''RM'', sample_animal 2 ''Maule'', sample_animal 3 ''RM''] ''RM'') = 2"
  using filteredAnimals_region
    [of "''RM''" "[sample_animal 1 ''RM'', sample_animal 2 ''Maule'', sample_animal 3 ''RM'']"]
  by (simp add: filteredAnimals_def sample_animal_def)

section \<open>The selectable regions\<close>

lemma availableRegions_set: "set (availableRegions D) = set allRegions \<inter> region ` set D"
  by (auto simp: availableRegions_def)

text \<open>
  Claim C5. The list of available regions has no duplicates; its elements are exactly the
  names of the sixteen-entry canonical list that occur as the region of some record, so a
  record region outside the canonical list is left out; it is a subsequence of the canonical
  list, and it is the same for every reordering of the dataset.
\<close>

theorem availableRegions_canonical:
  "distinct (availableRegions D) \<and>
   length allRegions = 16 \<and>
   set (availableRegions D) = set allRegions \<inter> region ` set D \<and>
   (\<forall>a \<in> set D. region a \<notin> set allRegions \<longrightarrow> region a \<notin> set (availableRegions D)) \<and>
   subseq (availableRegions D) allRegions \<and>
   (mset D' = mset D \<longrightarrow> availableRegions D' = availableRegions D)"
proof -
  have d: "distinct (availableRegions D)"
    by (simp add: availableRegions_def distinct_allRegions)
  have s: "subseq (availableRegions D) allRegions"
    by (simp add: availableRegions_def)
  have p: "mset D' = mset D \<longrightarrow> availableRegions D' = availableRegions D"
  proof
    assume "mset D' = mset D"
    then have "set D' = set D" by (rule mset_eq_setD)
    then show "availableRegions D' = availableRegions D"
      by (simp add: availableRegions_def)
  qed
  from d s p show ?thesis
    by (simp add: availableRegions_set length_allRegions)
qed

theorem availableRegions_canonical_witness:
  "mset [sample_animal 4 ''Atacama'', sample_animal 3 ''Narnia'', sample_animal 1 ''RM''] =
   mset [sample_animal 1 ''RM'', sample_animal 3 ''Narnia'', sample_animal 4 ''Atacama''] \<and>
   sample_animal 3 ''Narnia''
     \<in> set [sample_animal 1 ''RM'', sample_animal 3 ''Narnia'', sample_animal 4 ''Atacama''] \<and>
   region (sample_animal 3 ''Narnia'') \<notin> set allRegions \<and>
   availableRegions [sample_animal 4 ''Atacama'', sample_animal 3 ''Narnia'', sample_animal 1 ''RM'']
     = availableRegions
         [sample_animal 1 ''RM'', sample_animal 3 ''Narnia'', sample_animal 4 ''Atacama''] \<and>
   availableRegions [sample_animal 1 ''RM'', sample_animal 3 ''Narnia'', sample_animal 4 ''Atacama'']
     = [''Atacama'', ''RM'']"
  using availableRegions_canonical
    [of "[sample_animal 1 ''RM'', sample_animal 3 ''Narnia'', sample_animal 4 ''Atacama'']"
        "[sample_animal 4 ''Atacama'', sample_animal 3 ''Narnia'', sample_animal 1 ''RM'']"]
  by (simp add: availableRegions_def allRegions_def sample_animal_def)

section \<open>The page count\<close>

lemma totalPages_bounds:
  "(totalPages fa - 1) * ITEMS_PER_PAGE < int (length fa) \<and>
   int (length fa) \<le> totalPages fa * ITEMS_PER_PAGE"
proof -
  define n where "n = int (length fa)"
  define q where "q = (n + 19) div 20"
  define r where "r = (n + 19) mod 20"
  have "20 * q + r = n + 19" by (simp add: q_def r_def)
  moreover have "0 \<le> r" "r < 20" by (simp_all add: r_def)
  ultimately have "(q - 1) * 20 < n" "n \<le> q * 20"
    by (simp_all add: algebra_simps)
  then show ?thesis by (simp add: totalPages_div ITEMS_PER_PAGE_def n_def q_def)
qed

lemma totalPages_ge1_iff: "1 \<le> totalPages fa \<longleftrightarrow> fa \<noteq> []"
proof -
  have "1 \<le> (int (length fa) + 19) div 20 \<longleftrightarrow> 0 < length fa" by linarith
  then show ?thesis by (simp add: totalPages_div)
qed

lemma totalPages_nonneg: "0 \<le> totalPages fa"
proof -
  have "0 \<le> (int (length fa) + 19) div 20" by linarith
  then show ?thesis by (simp add: totalPages_div)
qed

lemma totalPages_Nil: "totalPages [] = 0"
  by (simp add: totalPages_def)

lemma filteredAnimals_absent:
  "sel \<noteq> ''all'' \<Longrightarrow> sel \<notin> region ` set D \<Longrightarrow> filteredAnimals D sel = []"
  by (auto simp: filteredAnimals_def filter_empty_conv)

text \<open>
  Claim C1, as stated, fails: the source takes the ceiling and nothing else, so a filter
  that selects a region present in no record gives a page count of 0, not 1.
\<close>

theorem totalPages_floor_counterexample:
  "filteredAnimals [sample_animal 2 ''Maule''] ''RM'' = [] \<and>
   totalPages (filteredAnimals [sample_animal 2 ''Maule''] ''RM'') = 0 \<and>
   totalPages (filteredAnimals [sample_animal 2 ''Maule''] ''RM'')
     \<noteq> max 1 \<lceil>real (length (filteredAnimals [sample_animal 2 ''Maule''] ''RM''))
                 / real_of_int ITEMS_PER_PAGE\<rceil>"
  by (simp add: filteredAnimals_def sample_animal_def totalPages_def)

text \<open>
  Claim C1, amended. For every filtered list the page count is the ceiling of its length over
  the page size, that is the one integer \<open>k\<close> with \<open>(k - 1) * pageSize < length \<le> k * pageSize\<close>;
  it is at least 1 exactly when the filtered list is not empty, and then it equals
  \<open>max 1\<close> of that ceiling; when the filter selects a region present in no record the filtered
  list is empty and the page count is 0.
\<close>

theorem totalPages_ceiling:
  "totalPages fa = \<lceil>real (length fa) / real_of_int ITEMS_PER_PAGE\<rceil> \<and>
   (totalPages fa - 1) * ITEMS_PER_PAGE < int (length fa) \<and>
   int (length fa) \<le> totalPages fa * ITEMS_PER_PAGE \<and>
   (1 \<le> totalPages fa \<longleftrightarrow> fa \<noteq> []) \<and>
   (fa \<noteq> [] \<longrightarrow>
      totalPages fa = max 1 \<lceil>real (length fa) / real_of_int ITEMS_PER_PAGE\<rceil>) \<and>
   (sel \<noteq> ''all'' \<and> sel \<notin> region ` set D \<longrightarrow>
      filteredAnimals D sel = [] \<and> totalPages (filteredAnimals D sel) = 0)"
proof -
  have a: "fa \<noteq> [] \<longrightarrow>
      totalPages fa = max 1 \<lceil>real (length fa) / real_of_int ITEMS_PER_PAGE\<rceil>"
    using totalPages_ge1_iff[of fa] by (simp add: totalPages_def)
  have b: "sel \<noteq> ''all'' \<and> sel \<notin> region ` set D \<longrightarrow>
      filteredAnimals D sel = [] \<and> totalPages (filteredAnimals D sel) = 0"
    by (simp add: filteredAnimals_absent totalPages_Nil)
  have c: "totalPages fa = \<lceil>real (length fa) / real_of_int ITEMS_PER_PAGE\<rceil>"
    by (simp add: totalPages_def)
  from a b c totalPages_bounds[of fa] totalPages_ge1_iff[of fa] show ?thesis by blast
qed

theorem totalPages_ceiling_witness:
  "[sample_animal 1 ''RM''] \<noteq> [] \<and> totalPages [sample_animal 1 ''RM''] = 1 \<and>
   ''RM'' \<noteq> ''all'' \<and> ''RM'' \<notin> region ` set [sample_animal 2 ''Maule''] \<and>
   filteredAnimals [sample_animal 2 ''Maule''] ''RM'' = [] \<and>
   totalPages (filteredAnimals [sample_animal 2 ''Maule''] ''RM'') = 0"
  using totalPages_ceiling [of "[sample_animal 1 ''RM'']" "''RM''" "[sample_animal 2 ''Maule'']"]
  by (simp add: sample_animal_def ITEMS_PER_PAGE_def totalPages_div filteredAnimals_def)

section \<open>The visible page\<close>

lemma map_nth_upt_take_drop:
  "b \<le> length xs \<Longrightarrow> map ((!) xs) [a..<b] = take (b - a) (drop a xs)"
  by (rule nth_equalityI) (auto simp: min_def)

lemma js_slice_map: "js_slice (map f xs) a b = map f (js_slice xs a b)"
  by (simp add: js_slice_def Let_def take_map drop_map)

lemma js_slice_Nil: "js_slice [] a b = []"
  by (simp add: js_slice_def Let_def)

lemma js_slice_nonneg:
  assumes "0 \<le> a" "a \<le> b"
  shows "js_slice xs a b = map ((!) xs) [nat a ..< nat (min b (int (length xs)))]"
proof (cases "a \<le> int (length xs)")
  case True
  with assms have "js_slice xs a b
      = take (nat (min b (int (length xs))) - nat a) (drop (nat a) xs)"
    by (simp add: js_slice_def Let_def min_def nat_diff_distrib)
  also have "\<dots> = map ((!) xs) [nat a ..< nat (min b (int (length xs)))]"
    by (rule map_nth_upt_take_drop[symmetric]) simp
  finally show ?thesis .
next
  case False
  with assms show ?thesis
    by (simp add: js_slice_def Let_def min_def)
qed

lemma currentAnimals_slice:
  assumes "0 \<le> page"
  shows "currentAnimals fa page =
     map ((!) fa) [nat ((page - 1) * ITEMS_PER_PAGE) ..<
                   nat (min (page * ITEMS_PER_PAGE) (int (length fa)))]"
proof (cases "page = 0")
  case True
  then show ?thesis
    by (simp add: currentAnimals_def ITEMS_PER_PAGE_def js_slice_def Let_def)
next
  case False
  with assms have p: "1 \<le> page" by simp
  have e: "(page - 1) * ITEMS_PER_PAGE + ITEMS_PER_PAGE = page * ITEMS_PER_PAGE"
    by (simp add: algebra_simps)
  have "0 \<le> (page - 1) * ITEMS_PER_PAGE" using p by (simp add: ITEMS_PER_PAGE_def)
  moreover have "(page - 1) * ITEMS_PER_PAGE \<le> (page - 1) * ITEMS_PER_PAGE + ITEMS_PER_PAGE"
    by (simp add: ITEMS_PER_PAGE_def)
  ultimately show ?thesis
    unfolding currentAnimals_def Let_def by (simp only: js_slice_nonneg e)
qed

lemma currentAnimals_Nil: "currentAnimals [] page = []"
  by (simp add: currentAnimals_def Let_def js_slice_Nil)

lemma currentAnimals_45:
  assumes "length fa = 45"
  shows "totalPages fa = 3 \<and> length (currentAnimals fa 1) = 20 \<and>
     length (currentAnimals fa 2) = 20 \<and> length (currentAnimals fa 3) = 5"
  using assms
  by (simp add: totalPages_div currentAnimals_def Let_def js_slice_def ITEMS_PER_PAGE_def)

section \<open>The transition system keeps the page invariant\<close>

lemmas setters = setAllAnimals_def setIsLoading_def setError_def setSelectedRegion_def
  setCurrentPage_def

lemma mounted_eq: "mounted = initial"
  by (simp add: mounted_def fetchAllAnimals_begin_def initial_def setters)

lemma page_invariant_mounted: "page_invariant mounted"
  by (simp add: page_invariant_def mounted_eq initial_def pagesOf_def filteredAnimals_def totalPages_Nil)

lemma render_ListView:
  "render s = ListView v \<Longrightarrow>
     \<not> isLoading s \<and>
     selectItems v = ''all'' # availableRegions (allAnimals s) \<and>
     previousDisabled v = (currentPage s = 1) \<and>
     length (pageLinks v) = nat (pagesOf s) \<and>
     nextDisabled v = (currentPage s = pagesOf s)"
  by (auto simp: render_def renderList_def Let_def pagesOf_def split: if_splits option.splits)

lemma render_LoadingView: "render s = LoadingView \<Longrightarrow> isLoading s"
  by (auto simp: render_def split: if_splits option.splits)

lemma page_invariant_settle:
  assumes "page_invariant s" "isLoading s"
  shows "page_invariant (fetchAllAnimals_settle outcome s)"
proof -
  from assms have a: "allAnimals s = []" "currentPage s = 1" "selectedRegion s = ''all''"
    by (simp_all add: page_invariant_def)
  show ?thesis
  proof (cases outcome)
    case FetchRejected
    with a show ?thesis
      by (simp add: page_invariant_def fetchAllAnimals_settle_def setters pagesOf_def filteredAnimals_def
          totalPages_Nil)
  next
    case (Response ok body)
    show ?thesis
    proof (cases "ok \<and> (\<exists>d. body = JsonBody d)")
      case True
      then obtain d where b: "ok" "body = JsonBody d" by blast
      have "1 \<le> totalPages (data d) \<or> totalPages (data d) = 0"
        using totalPages_nonneg[of "data d"] by linarith
      with a b Response show ?thesis
        by (auto simp: page_invariant_def fetchAllAnimals_settle_def setters pagesOf_def filteredAnimals_def)
    next
      case False
      with a Response show ?thesis
        by (cases body) (auto simp: page_invariant_def fetchAllAnimals_settle_def setters pagesOf_def
            filteredAnimals_def totalPages_Nil)
    qed
  qed
qed

lemma page_invariant_select:
  assumes "page_invariant s" "r \<in> set (''all'' # availableRegions (allAnimals s))"
  shows "page_invariant (handleRegionChange r s)"
proof -
  from assms(2) have r: "r = ''all'' \<or> r \<in> region ` set (allAnimals s)"
    by (auto simp: availableRegions_set)
  have "1 \<le> totalPages (filteredAnimals (allAnimals s) r) \<or>
        totalPages (filteredAnimals (allAnimals s) r) = 0"
    using totalPages_nonneg[of "filteredAnimals (allAnimals s) r"] by linarith
  moreover have "isLoading s \<longrightarrow> r = ''all''"
    using assms(1) r by (auto simp: page_invariant_def)
  ultimately show ?thesis using assms(1) r
    by (auto simp: page_invariant_def handleRegionChange_def setters pagesOf_def)
qed

lemma page_invariant_previous:
  assumes "page_invariant s" "currentPage s \<noteq> 1" "\<not> isLoading s"
  shows "page_invariant (onPrevious s)"
  using assms by (auto simp: page_invariant_def onPrevious_def setters pagesOf_def split: if_splits)

lemma page_invariant_pageLink:
  assumes "page_invariant s" "index < nat (pagesOf s)" "\<not> isLoading s"
  shows "page_invariant (onPageLink index s)"
  using assms by (auto simp: page_invariant_def onPageLink_def setters pagesOf_def split: if_splits)

lemma page_invariant_next:
  assumes "page_invariant s" "currentPage s \<noteq> pagesOf s" "\<not> isLoading s"
  shows "page_invariant (onNext s)"
  using assms totalPages_nonneg[of "filteredAnimals (allAnimals s) (selectedRegion s)"]
  by (auto simp: page_invariant_def onNext_def setters pagesOf_def split: if_splits)

lemma page_invariant_step:
  assumes "page_invariant s" "step s e = Some s'"
  shows "page_invariant s'"
proof (cases "render s")
  case LoadingView
  then have "isLoading s" by (rule render_LoadingView)
  with assms LoadingView show ?thesis
    by (cases e) (auto simp: step_def page_invariant_settle)
next
  case (ErrorView msg)
  with assms show ?thesis by (simp add: step_def)
next
  case (ListView v)
  note v = render_ListView[OF ListView]
  show ?thesis
  proof (cases e)
    case (Settle outcome)
    with assms ListView show ?thesis by (simp add: step_def)
  next
    case (SelectRegion r)
    with assms ListView v show ?thesis
      by (auto simp: step_def page_invariant_select split: if_splits)
  next
    case ClickPrevious
    with assms ListView v show ?thesis
      by (auto simp: step_def page_invariant_previous split: if_splits)
  next
    case (ClickPageLink index)
    with assms ListView v show ?thesis
      by (auto simp: step_def page_invariant_pageLink split: if_splits)
  next
    case ClickNext
    with assms ListView v show ?thesis
      by (auto simp: step_def page_invariant_next split: if_splits)
  qed
qed

lemma reachable_page_invariant: "reachable s \<Longrightarrow> page_invariant s"
  by (induction rule: reachable.induct) (auto intro: page_invariant_mounted page_invariant_step)

section \<open>The visible page of a state\<close>

lemma reachable_page_nonneg: "reachable s \<Longrightarrow> 0 \<le> currentPage s"
  using reachable_page_invariant[of s] by (auto simp: page_invariant_def split: if_splits)

lemma reachable_one_record_state: "reachable one_record_state"
proof -
  have "step mounted (Settle (Response True (JsonBody one_record_response)))
      = Some one_record_state"
    by (simp add: step_def render_def fetchAllAnimals_settle_def setters mounted_eq
        initial_def one_record_response_def one_record_state_def)
  with reachable_mounted show ?thesis by (rule reachable_step)
qed

text \<open>
  Claim C6. With the page size of the source, 20, and for every page number from 0 on, the
  visible page is the list of the records of the filtered list at the positions from
  \<open>(currentPage - 1) * pageSize\<close> up to, and not including,
  \<open>min (currentPage * pageSize) filteredCount\<close>; the page of every reachable state is such a
  number, so this is the visible page of every render; the visible page is empty when the
  filtered list is empty; and a filtered list of 45 records has 3 pages of 20, 20 and 5
  records.
\<close>

theorem currentAnimals_page:
  "(0 \<le> page \<longrightarrow>
      currentAnimals fa page =
        map ((!) fa) [nat ((page - 1) * ITEMS_PER_PAGE) ..<
                      nat (min (page * ITEMS_PER_PAGE) (int (length fa)))]) \<and>
   (reachable s \<longrightarrow>
      0 \<le> currentPage s \<and>
      currentAnimals (filteredAnimals (allAnimals s) (selectedRegion s)) (currentPage s) =
        map ((!) (filteredAnimals (allAnimals s) (selectedRegion s)))
          [nat ((currentPage s - 1) * ITEMS_PER_PAGE) ..<
           nat (min (currentPage s * ITEMS_PER_PAGE)
                  (int (length (filteredAnimals (allAnimals s) (selectedRegion s)))))]) \<and>
   (fa = [] \<longrightarrow> currentAnimals fa page = []) \<and>
   ITEMS_PER_PAGE = 20 \<and>
   (length fa = 45 \<longrightarrow>
      totalPages fa = 3 \<and> length (currentAnimals fa 1) = 20 \<and>
      length (currentAnimals fa 2) = 20 \<and> length (currentAnimals fa 3) = 5)"
proof -
  have a: "0 \<le> page \<longrightarrow>
      currentAnimals fa page =
        map ((!) fa) [nat ((page - 1) * ITEMS_PER_PAGE) ..<
                      nat (min (page * ITEMS_PER_PAGE) (int (length fa)))]"
    by (simp add: currentAnimals_slice)
  have b: "reachable s \<longrightarrow>
      0 \<le> currentPage s \<and>
      currentAnimals (filteredAnimals (allAnimals s) (selectedRegion s)) (currentPage s) =
        map ((!) (filteredAnimals (allAnimals s) (selectedRegion s)))
          [nat ((currentPage s - 1) * ITEMS_PER_PAGE) ..<
           nat (min (currentPage s * ITEMS_PER_PAGE)
                  (int (length (filteredAnimals (allAnimals s) (selectedRegion s)))))]"
    by (simp add: reachable_page_nonneg currentAnimals_slice)
  have c: "fa = [] \<longrightarrow> currentAnimals fa page = []"
    by (simp add: currentAnimals_Nil)
  have d: "ITEMS_PER_PAGE = 20"
    by (simp add: ITEMS_PER_PAGE_def)
  have e: "length fa = 45 \<longrightarrow>
      totalPages fa = 3 \<and> length (currentAnimals fa 1) = 20 \<and>
      length (currentAnimals fa 2) = 20 \<and> length (currentAnimals fa 3) = 5"
    using currentAnimals_45[of fa] by blast
  from a b c d e show ?thesis by blast
qed

theorem currentAnimals_page_witness:
  "(0::int) \<le> 3 \<and>
   length (replicate 45 (sample_animal 7 (''Biob'' @ [CHR 0xC3, CHR 0xAD] @ ''o''))) = 45 \<and>
   totalPages (replicate 45 (sample_animal 7 (''Biob'' @ [CHR 0xC3, CHR 0xAD] @ ''o''))) = 3 \<and>
   currentAnimals (replicate 45 (sample_animal 7 (''Biob'' @ [CHR 0xC3, CHR 0xAD] @ ''o''))) 3
     = map ((!) (replicate 45 (sample_animal 7 (''Biob'' @ [CHR 0xC3, CHR 0xAD] @ ''o''))))
         [40 ..< 45] \<and>
   length (currentAnimals
       (replicate 45 (sample_animal 7 (''Biob'' @ [CHR 0xC3, CHR 0xAD] @ ''o''))) 3) = 5 \<and>
   reachable one_record_state \<and>
   0 \<le> currentPage one_record_state \<and>
   currentAnimals (filteredAnimals (allAnimals one_record_state) (selectedRegion one_record_state))
       (currentPage one_record_state)
     = map ((!) (filteredAnimals (allAnimals one_record_state) (selectedRegion one_record_state)))
         [0 ..< 1] \<and>
   currentAnimals [] 3 = []"
proof -
  define fa where "fa = replicate 45 (sample_animal 7 (''Biob'' @ [CHR 0xC3, CHR 0xAD] @ ''o''))"
  have len: "length fa = 45" by (simp add: fa_def)
  note th = currentAnimals_page [of 3 fa one_record_state]
  have p3: "(0::int) \<le> 3" by simp
  from th p3 have a: "currentAnimals fa 3 =
        map ((!) fa) [nat ((3 - 1) * ITEMS_PER_PAGE) ..<
                      nat (min (3 * ITEMS_PER_PAGE) (int (length fa)))]"
    by blast
  have a': "currentAnimals fa 3 = map ((!) fa) [40 ..< 45]"
    using a by (simp add: ITEMS_PER_PAGE_def len)
  from th len have b: "totalPages fa = 3 \<and> length (currentAnimals fa 3) = 5"
    by blast
  from th reachable_one_record_state
  have c: "0 \<le> currentPage one_record_state \<and>
      currentAnimals (filteredAnimals (allAnimals one_record_state) (selectedRegion one_record_state))
        (currentPage one_record_state) =
      map ((!) (filteredAnimals (allAnimals one_record_state) (selectedRegion one_record_state)))
          [nat ((currentPage one_record_state - 1) * ITEMS_PER_PAGE) ..<
           nat (min (currentPage one_record_state * ITEMS_PER_PAGE)
                  (int (length (filteredAnimals (allAnimals one_record_state)
                     (selectedRegion one_record_state)))))]"
    by blast
  have idx: "[nat ((currentPage one_record_state - 1) * ITEMS_PER_PAGE) ..<
           nat (min (currentPage one_record_state * ITEMS_PER_PAGE)
                  (int (length (filteredAnimals (allAnimals one_record_state)
                     (selectedRegion one_record_state)))))] = [0 ..< 1]"
    by (simp add: one_record_state_def filteredAnimals_def ITEMS_PER_PAGE_def)
  from currentAnimals_page [of 3 "[]" one_record_state]
  have d: "currentAnimals [] 3 = []" by blast
  from a' b c[unfolded idx] d len p3 reachable_one_record_state show ?thesis
    unfolding fa_def by blast
qed

section \<open>Page navigation\<close>

text \<open>
  Claim C3, as stated, fails when the dataset is empty. The page count is then 0, the next
  button is enabled (the page, 1, differs from the page count), and a click sets the page to
  \<open>min 2 0 = 0\<close>, where \<open>clampPage\<close> gives 1; no page lies in the empty range from 1 to 0.
\<close>

theorem next_on_empty_dataset_counterexample:
  "map_option pagesOf (run mounted [Settle (Response True (JsonBody empty_response))]) = Some 0 \<and>
   map_option currentPage
     (run mounted [Settle (Response True (JsonBody empty_response)), ClickNext]) = Some 0 \<and>
   clampPage (1 + 1) 0 = 1"
  by (simp add: step_def render_def renderList_def mounted_eq initial_def fetchAllAnimals_settle_def setters
      empty_response_def filteredAnimals_def totalPages_Nil onNext_def pagesOf_def clampPage_def
      availableRegions_def Let_def)

text \<open>
  Claim C3, amended. For a page count of at least 1, \<open>clampPage\<close> yields a page between 1 and
  the page count. From a page between 1 and the page count, the previous handler sets the page
  to \<open>max (currentPage - 1) 1\<close> and the next handler to \<open>min (currentPage + 1) totalPages\<close>;
  both agree with \<open>clampPage\<close>, stay in that range, and change nothing at the boundary. In
  every reachable state whose page count is at least 1 the page lies between 1 and the page
  count.
\<close>

theorem page_navigation_in_range:
  "(1 \<le> pages \<longrightarrow> 1 \<le> clampPage requested pages \<and> clampPage requested pages \<le> pages) \<and>
   (1 \<le> currentPage s \<and> currentPage s \<le> pagesOf s \<longrightarrow>
      currentPage (onPrevious s) = max (currentPage s - 1) 1 \<and>
      currentPage (onNext s) = min (currentPage s + 1) (pagesOf s) \<and>
      currentPage (onPrevious s) = clampPage (currentPage s - 1) (pagesOf s) \<and>
      currentPage (onNext s) = clampPage (currentPage s + 1) (pagesOf s) \<and>
      1 \<le> currentPage (onPrevious s) \<and> currentPage (onPrevious s) \<le> pagesOf s \<and>
      1 \<le> currentPage (onNext s) \<and> currentPage (onNext s) \<le> pagesOf s \<and>
      (currentPage s = 1 \<longrightarrow> currentPage (onPrevious s) = 1) \<and>
      (currentPage s = pagesOf s \<longrightarrow> currentPage (onNext s) = pagesOf s)) \<and>
   (reachable s \<and> 1 \<le> pagesOf s \<longrightarrow> 1 \<le> currentPage s \<and> currentPage s \<le> pagesOf s)"
proof -
  have a: "1 \<le> pages \<longrightarrow> 1 \<le> clampPage requested pages \<and> clampPage requested pages \<le> pages"
    by (simp add: clampPage_def)
  have b: "currentPage (onPrevious s) = max (currentPage s - 1) 1"
    by (simp add: onPrevious_def setters)
  have c: "currentPage (onNext s) = min (currentPage s + 1) (pagesOf s)"
    by (simp add: onNext_def setters pagesOf_def)
  have d: "reachable s \<and> 1 \<le> pagesOf s \<longrightarrow> 1 \<le> currentPage s \<and> currentPage s \<le> pagesOf s"
    using reachable_page_invariant[of s] by (auto simp: page_invariant_def)
  have e: "1 \<le> currentPage s \<and> currentPage s \<le> pagesOf s \<longrightarrow>
      max (currentPage s - 1) 1 = clampPage (currentPage s - 1) (pagesOf s) \<and>
      min (currentPage s + 1) (pagesOf s) = clampPage (currentPage s + 1) (pagesOf s)"
    by (auto simp: clampPage_def)
  from a b c d e show ?thesis by (auto simp: clampPage_def)
qed

theorem page_navigation_in_range_witness:
  "reachable one_record_state \<and>
   pagesOf one_record_state = 1 \<and>
   currentPage one_record_state = 1 \<and>
   currentPage (onNext one_record_state) = clampPage (1 + 1) 1 \<and>
   currentPage (onPrevious one_record_state) = clampPage (1 - 1) 1 \<and>
   (1::int) \<le> 3 \<and> clampPage 7 3 = 3"
proof -
  have p: "pagesOf one_record_state = 1"
    by (simp add: pagesOf_def one_record_state_def filteredAnimals_def totalPages_div)
  have c: "currentPage one_record_state = 1"
    by (simp add: one_record_state_def)
  from page_navigation_in_range[of 3 7 one_record_state] reachable_one_record_state p c
  show ?thesis
    by (simp add: clampPage_def)
qed

section \<open>Changing the filter\<close>

lemma step_selectedRegion:
  assumes "step s e = Some s'" "selectedRegion s' \<noteq> selectedRegion s"
  shows "\<exists>v. e = SelectRegion v \<and> s' = handleRegionChange v s"
proof (cases "render s")
  case LoadingView
  with assms show ?thesis
    by (cases e; cases "case e of Settle outcome \<Rightarrow> outcome")
       (auto simp: step_def fetchAllAnimals_settle_def setters
          split: fetch_outcome.splits json_outcome.splits if_splits)
next
  case (ErrorView msg)
  with assms show ?thesis by (simp add: step_def)
next
  case (ListView v)
  with assms show ?thesis
    by (cases e) (auto simp: step_def onPrevious_def onNext_def onPageLink_def setters
        split: if_splits)
qed

text \<open>
  Claim C4. Whatever the page and the filter were, the region-change handler leaves the page
  at 1 and the filter at the selected value, without touching the dataset; selecting a region
  is one transition, whose successor is the handler's result; and every transition that changes
  the filter ends with the page at 1, so the new filter is never in force with the old page.
\<close>

theorem handleRegionChange_resets_page:
  "currentPage (handleRegionChange v s) = 1 \<and>
   selectedRegion (handleRegionChange v s) = v \<and>
   allAnimals (handleRegionChange v s) = allAnimals s \<and>
   (step s (SelectRegion v) = Some s' \<longrightarrow> s' = handleRegionChange v s) \<and>
   (step s e = Some s' \<and> selectedRegion s' \<noteq> selectedRegion s \<longrightarrow> currentPage s' = 1)"
proof -
  have a: "currentPage (handleRegionChange v s) = 1 \<and>
     selectedRegion (handleRegionChange v s) = v \<and>
     allAnimals (handleRegionChange v s) = allAnimals s"
    by (simp add: handleRegionChange_def setters)
  have b: "step s (SelectRegion v) = Some s' \<longrightarrow> s' = handleRegionChange v s"
    by (auto simp: step_def split: view.splits if_splits)
  have c: "step s e = Some s' \<and> selectedRegion s' \<noteq> selectedRegion s \<longrightarrow> currentPage s' = 1"
    using step_selectedRegion[of s e s'] by (auto simp: handleRegionChange_def setters)
  from a b c show ?thesis by blast
qed

lemma two_region_pages:
  "totalPages (filteredAnimals two_region_dataset ''RM'') = 3 \<and>
   totalPages (filteredAnimals two_region_dataset ''all'') = 5"
  by (simp add: two_region_dataset_def filteredAnimals_def totalPages_div sample_animal_def)

theorem handleRegionChange_resets_page_witness:
  "pagesOf \<lparr>allAnimals = two_region_dataset, currentPage = 3, isLoading = False, error = None,
      selectedRegion = ''RM''\<rparr> = 3 \<and>
   step \<lparr>allAnimals = two_region_dataset, currentPage = 3, isLoading = False, error = None,
      selectedRegion = ''RM''\<rparr> (SelectRegion ''all'')
     = Some \<lparr>allAnimals = two_region_dataset, currentPage = 1, isLoading = False, error = None,
      selectedRegion = ''all''\<rparr> \<and>
   pagesOf \<lparr>allAnimals = two_region_dataset, currentPage = 1, isLoading = False, error = None,
      selectedRegion = ''all''\<rparr> = 5"
proof -
  let ?s = "\<lparr>allAnimals = two_region_dataset, currentPage = 3, isLoading = False, error = None,
      selectedRegion = ''RM''\<rparr>"
  have r: "render ?s \<noteq> LoadingView \<and> (\<forall>m. render ?s \<noteq> ErrorView m)"
    by (simp add: render_def renderList_def Let_def)
  have i: "\<And>v. render ?s = ListView v \<Longrightarrow> ''all'' \<in> set (selectItems v)"
    by (auto simp: render_def renderList_def Let_def)
  have st: "step ?s (SelectRegion ''all'') = Some (handleRegionChange ''all'' ?s)"
    using r i by (cases "render ?s") (auto simp: step_def)
  from handleRegionChange_resets_page[of "''all''" ?s "handleRegionChange ''all'' ?s"
      "SelectRegion ''all''"] st two_region_pages
  show ?thesis
    by (simp add: pagesOf_def handleRegionChange_def setters)
qed

section \<open>A failed load\<close>

text \<open>
  Claim C8. When the request is rejected, or answered with a status that is not a success,
  the error cell holds the message, the loading flag is cleared, the dataset cell is left as it
  was (nothing of the failed answer is stored), and the render is the error message alone: no
  record is shown, whatever the dataset cell holds.
\<close>

theorem fetch_failure_shows_error:
  assumes "outcome = FetchRejected \<or> outcome = Response False body"
  shows "error (fetchAllAnimals_settle outcome s) = Some fetch_error_message \<and>
         \<not> isLoading (fetchAllAnimals_settle outcome s) \<and>
         allAnimals (fetchAllAnimals_settle outcome s) = allAnimals s \<and>
         render (fetchAllAnimals_settle outcome s) = ErrorView fetch_error_message \<and>
         (isLoading s \<longrightarrow> step s (Settle outcome) = Some (fetchAllAnimals_settle outcome s))"
  using assms
  by (auto simp: fetchAllAnimals_settle_def setters render_def renderList_def step_def fetch_error_message_def)

theorem fetch_failure_shows_error_witness:
  "render (fetchAllAnimals_settle FetchRejected
      \<lparr>allAnimals = [sample_animal 1 ''RM''], currentPage = 1, isLoading = True, error = None,
       selectedRegion = ''all''\<rparr>) = ErrorView fetch_error_message \<and>
   step mounted (Settle (Response False JsonRejected))
     = Some (initial\<lparr>isLoading := False, error := Some fetch_error_message\<rparr>)"
  using fetch_failure_shows_error[of FetchRejected JsonRejected
      "\<lparr>allAnimals = [sample_animal 1 ''RM''], currentPage = 1, isLoading = True, error = None,
       selectedRegion = ''all''\<rparr>"]
    fetch_failure_shows_error[of "Response False JsonRejected" JsonRejected mounted]
  by (simp add: mounted_eq initial_def fetchAllAnimals_settle_def setters)

section \<open>Totality of filtering and pagination\<close>

text \<open>
  None of the operations behind the four derived values (strict equality, \<open>Array.filter\<close>,
  \<open>Array.map\<close>, building a \<open>Set\<close> and \<open>Set.has\<close>, division, \<open>Math.ceil\<close>, \<open>Array.slice\<close>)
  throws on an array of records, so the embedding has no error value for them: they are total
  functions. The facts below say what they return at the edges.
\<close>

lemma js_slice_subseq: "subseq (js_slice xs a b) xs"
proof -
  have "subseq (take n (drop k xs)) (drop k xs)" for n k
    by (rule prefix_imp_subseq) (rule take_is_prefix)
  moreover have "subseq (drop k xs) xs" for k
    by (rule suffix_imp_subseq) (rule suffix_drop)
  ultimately show ?thesis
    unfolding js_slice_def Let_def by (blast intro: subseq_order.trans)
qed

lemma currentAnimals_subseq: "subseq (currentAnimals fa page) fa"
  by (simp add: currentAnimals_def Let_def js_slice_subseq)

lemma js_slice_length: "length (js_slice xs a (a + 20)) \<le> 20"
proof -
  define len where "len = int (length xs)"
  define k where "k = (if a < 0 then max (len + a) 0 else min a len)"
  define final where "final = (if a + 20 < 0 then max (len + (a + 20)) 0 else min (a + 20) len)"
  have "final - k \<le> 20"
    by (auto simp: k_def final_def min_def max_def)
  then have "nat (final - k) \<le> 20" by simp
  moreover have "length (js_slice xs a (a + 20)) \<le> nat (final - k)"
    by (simp add: js_slice_def Let_def k_def final_def len_def)
  ultimately show ?thesis by (rule order_trans[rotated])
qed

lemma currentAnimals_length: "length (currentAnimals fa page) \<le> 20"
  unfolding currentAnimals_def Let_def ITEMS_PER_PAGE_def by (rule js_slice_length)

lemma currentAnimals_beyond:
  assumes "totalPages fa < page \<or> page = 0"
  shows "currentAnimals fa page = []"
proof (cases "page = 0")
  case True
  then show ?thesis
    by (simp add: currentAnimals_def ITEMS_PER_PAGE_def js_slice_def Let_def)
next
  case False
  with assms have lt: "totalPages fa < page" by simp
  have "int (length fa) \<le> totalPages fa * 20"
    using totalPages_bounds[of fa] by (simp add: ITEMS_PER_PAGE_def)
  with lt have "int (length fa) \<le> (page - 1) * 20" by simp
  moreover have "0 \<le> (page - 1) * 20"
    using lt totalPages_nonneg[of fa] by simp
  ultimately show ?thesis
    by (simp add: currentAnimals_def ITEMS_PER_PAGE_def js_slice_def Let_def)
qed

text \<open>
  Claim C9. The filtered view, the available regions, the page count and the visible page are
  defined on every input and return a value, never an error: on the empty dataset they are
  empty (and the page count 0); a filter that matches no record gives the empty view, 0 pages
  and an empty visible page; a page beyond the page count, or page 0, gives an empty visible
  page; and in general the filtered view is a subsequence of the dataset, the available regions
  a subsequence of the canonical list, the page count is not negative, the visible page is a
  subsequence of the filtered view of at most 20 records, the previous handler never goes below
  page 1 and the next handler never beyond the page count.
\<close>

theorem filtering_pagination_total:
  "filteredAnimals [] sel = [] \<and>
   availableRegions [] = [] \<and>
   totalPages [] = 0 \<and>
   currentAnimals [] page = [] \<and>
   (sel \<noteq> ''all'' \<and> sel \<notin> region ` set D \<longrightarrow>
      filteredAnimals D sel = [] \<and> totalPages (filteredAnimals D sel) = 0 \<and>
      currentAnimals (filteredAnimals D sel) page = []) \<and>
   (totalPages fa < page \<or> page = 0 \<longrightarrow> currentAnimals fa page = []) \<and>
   subseq (filteredAnimals D sel) D \<and>
   subseq (availableRegions D) allRegions \<and>
   0 \<le> totalPages fa \<and>
   subseq (currentAnimals fa page) fa \<and>
   length (currentAnimals fa page) \<le> 20 \<and>
   1 \<le> currentPage (onPrevious s) \<and>
   currentPage (onNext s) \<le> pagesOf s"
proof -
  have a: "filteredAnimals [] sel = [] \<and> availableRegions [] = []"
    by (simp add: filteredAnimals_def availableRegions_def)
  have b: "sel \<noteq> ''all'' \<and> sel \<notin> region ` set D \<longrightarrow>
      filteredAnimals D sel = [] \<and> totalPages (filteredAnimals D sel) = 0 \<and>
      currentAnimals (filteredAnimals D sel) page = []"
    by (simp add: filteredAnimals_absent totalPages_Nil currentAnimals_Nil)
  have c: "subseq (filteredAnimals D sel) D \<and> subseq (availableRegions D) allRegions"
    by (simp add: filteredAnimals_def availableRegions_def)
  have d: "1 \<le> currentPage (onPrevious s) \<and> currentPage (onNext s) \<le> pagesOf s"
    by (simp add: onPrevious_def onNext_def setters pagesOf_def)
  from a b c d totalPages_Nil currentAnimals_Nil[of page] currentAnimals_beyond[of fa page]
    totalPages_nonneg[of fa] currentAnimals_subseq[of fa page] currentAnimals_length[of fa page]
  show ?thesis by blast
qed

theorem filtering_pagination_total_witness:
  "''RM'' \<noteq> ''all'' \<and> ''RM'' \<notin> region ` set [sample_animal 2 ''Maule''] \<and>
   filteredAnimals [sample_animal 2 ''Maule''] ''RM'' = [] \<and>
   currentAnimals (filteredAnimals [sample_animal 2 ''Maule''] ''RM'') 4 = [] \<and>
   totalPages [sample_animal 2 ''Maule''] < 4 \<and>
   currentAnimals [sample_animal 2 ''Maule''] 4 = []"
  using filtering_pagination_total
    [of "''RM''" 4 "[sample_animal 2 ''Maule'']" "[sample_animal 2 ''Maule'']" initial]
  by (simp add: sample_animal_def totalPages_div)

section \<open>Selection looks at the region only\<close>

lemma filteredAnimals_positions:
  "filteredAnimals D sel = map ((!) D) (filteredPositions (map region D) sel)"
proof (cases "sel = ''all''")
  case True
  then show ?thesis
    by (simp add: filteredAnimals_def filteredPositions_def map_nth)
next
  case False
  have "filter (\<lambda>animal. region animal = sel) D
      = filter (\<lambda>animal. region animal = sel) (map ((!) D) [0..<length D])"
    by (simp add: map_nth)
  also have "\<dots> = map ((!) D) (filter (\<lambda>i. region (D ! i) = sel) [0..<length D])"
    by (simp add: filter_map comp_def)
  also have "filter (\<lambda>i. region (D ! i) = sel) [0..<length D]
      = filter (\<lambda>i. map region D ! i = sel) [0..<length D]"
    by (rule filter_cong) simp_all
  finally show ?thesis using False
    by (simp add: filteredAnimals_def filteredPositions_def)
qed

lemma currentAnimals_positions:
  "currentAnimals (filteredAnimals D sel) page
     = map ((!) D) (visiblePositions (map region D) sel page)"
  by (simp add: currentAnimals_def visiblePositions_def Let_def js_slice_map[symmetric]
      filteredAnimals_positions[symmetric])

lemma filteredPositions_range:
  "set (filteredPositions rs sel) \<subseteq> {..<length rs} \<and> sorted_wrt (<) (filteredPositions rs sel)"
  by (auto simp: filteredPositions_def sorted_wrt_filter)

lemma visiblePositions_subseq:
  "subseq (visiblePositions rs sel page) (filteredPositions rs sel)"
  by (simp add: visiblePositions_def Let_def js_slice_subseq)

lemma availableRegions_regions:
  "availableRegions D = filter (\<lambda>r. r \<in> set (map region D)) allRegions"
  by (simp add: availableRegions_def)

lemma totalPages_length: "length xs = length ys \<Longrightarrow> totalPages xs = totalPages ys"
  by (simp add: totalPages_def)

text \<open>
  Claim C10. For two datasets of equal length that agree position by position on the region,
  the filtered view and the visible page pick the same positions of either dataset (the
  positions computed from the column of regions alone, increasing and within the dataset), the
  available regions are equal and the page counts are equal: no other field of a record has any
  influence.
\<close>

theorem selection_depends_on_region_only:
  assumes "length D = length D'" and "\<forall>i < length D. region (D ! i) = region (D' ! i)"
  shows "filteredAnimals D sel = map ((!) D) (filteredPositions (map region D) sel) \<and>
         filteredAnimals D' sel = map ((!) D') (filteredPositions (map region D) sel) \<and>
         currentAnimals (filteredAnimals D sel) page
           = map ((!) D) (visiblePositions (map region D) sel page) \<and>
         currentAnimals (filteredAnimals D' sel) page
           = map ((!) D') (visiblePositions (map region D) sel page) \<and>
         set (filteredPositions (map region D) sel) \<subseteq> {..<length D} \<and>
         sorted_wrt (<) (filteredPositions (map region D) sel) \<and>
         subseq (visiblePositions (map region D) sel page) (filteredPositions (map region D) sel) \<and>
         availableRegions D = availableRegions D' \<and>
         totalPages (filteredAnimals D sel) = totalPages (filteredAnimals D' sel)"
proof -
  from assms have eq: "map region D = map region D'"
    by (simp add: list_eq_iff_nth_eq)
  have f: "filteredAnimals D' sel = map ((!) D') (filteredPositions (map region D) sel)"
    unfolding eq by (rule filteredAnimals_positions)
  have v: "currentAnimals (filteredAnimals D' sel) page
           = map ((!) D') (visiblePositions (map region D) sel page)"
    unfolding eq by (rule currentAnimals_positions)
  have a: "availableRegions D = availableRegions D'"
    by (simp only: availableRegions_regions eq)
  have "length (filteredAnimals D sel) = length (filteredAnimals D' sel)"
    by (simp add: f filteredAnimals_positions[of D sel])
  then have t: "totalPages (filteredAnimals D sel) = totalPages (filteredAnimals D' sel)"
    by (rule totalPages_length)
  from f v a t filteredAnimals_positions[of D sel] currentAnimals_positions[of D sel page]
    filteredPositions_range[of "map region D" sel] visiblePositions_subseq[of "map region D" sel page]
  show ?thesis by simp
qed

theorem selection_depends_on_region_only_witness:
  "length [sample_animal 1 ''RM'', sample_animal 2 ''Maule'', sample_animal 3 ''RM'']
     = length [(sample_animal 7 ''RM'')\<lparr>nombre := ''Toby''\<rparr>, sample_animal 8 ''Maule'',
               (sample_animal 9 ''RM'')\<lparr>comuna := ''x'', url := ''y''\<rparr>] \<and>
   filteredAnimals [sample_animal 1 ''RM'', sample_animal 2 ''Maule'', sample_animal 3 ''RM''] ''RM''
     = map ((!) [sample_animal 1 ''RM'', sample_animal 2 ''Maule'', sample_animal 3 ''RM''])
         [0, 2] \<and>
   currentAnimals (filteredAnimals
       [(sample_animal 7 ''RM'')\<lparr>nombre := ''Toby''\<rparr>, sample_animal 8 ''Maule'',
        (sample_animal 9 ''RM'')\<lparr>comuna := ''x'', url := ''y''\<rparr>] ''RM'') 1
     = map ((!) [(sample_animal 7 ''RM'')\<lparr>nombre := ''Toby''\<rparr>, sample_animal 8 ''Maule'',
                 (sample_animal 9 ''RM'')\<lparr>comuna := ''x'', url := ''y''\<rparr>]) [0, 2]"
proof -
  let ?D = "[sample_animal 1 ''RM'', sample_animal 2 ''Maule'', sample_animal 3 ''RM'']"
  let ?D' = "[(sample_animal 7 ''RM'')\<lparr>nombre := ''Toby''\<rparr>, sample_animal 8 ''Maule'',
               (sample_animal 9 ''RM'')\<lparr>comuna := ''x'', url := ''y''\<rparr>]"
  have l: "length ?D = length ?D'" by simp
  have r: "\<forall>i < length ?D. region (?D ! i) = region (?D' ! i)"
    by (simp add: sample_animal_def less_Suc_eq nth_Cons')
  have fp: "filteredPositions (map region ?D) ''RM'' = [0, 2]"
    by (simp add: filteredPositions_def sample_animal_def upt_rec)
  have vp: "visiblePositions (map region ?D) ''RM'' 1 = [0, 2]"
    by (simp add: visiblePositions_def filteredPositions_def sample_animal_def upt_rec
        js_slice_def ITEMS_PER_PAGE_def)
  note th = selection_depends_on_region_only[OF l r, of "''RM''" 1]
  from th[unfolded fp vp] l show ?thesis
    by blast
qed

end
